theory Spec2Isabelle
  imports Complex_Main "HOL-Library.Finite_Map"
begin

section \<open>Path strings: \<open>getPaths\<close> and \<open>formatPaths\<close>\<close>

text \<open>
  JavaScript strings are modelled as \<^typ>\<open>string\<close>, one \<^typ>\<open>char\<close> per code unit.
  A path segment is what \<open>getPaths\<close> puts into its result array: a string (a field
  name) or a number (an index, always produced by \<open>Number\<close> applied to a run of
  decimal digits).
\<close>

datatype seg = Field string | Index nat

subsection \<open>Character classes of the pattern \<open>/(\w*)\[(\d+)\]/\<close>\<close>

definition is_digit :: "char \<Rightarrow> bool" where
  "is_digit c = (c \<in> set ''0123456789'')"

definition is_word :: "char \<Rightarrow> bool" where
  "is_word c =
     (c \<in> set ''abcdefghijklmnopqrstuvwxyzABCDEFGHIJKLMNOPQRSTUVWXYZ0123456789_'')"

subsection \<open>\<open>Number(digits)\<close> and the decimal rendering of a number\<close>

text \<open>
  \<open>Number\<close> is only ever applied to the second capture group, a non-empty run of
  decimal digits. The model computes the exact value. JavaScript numbers are IEEE
  doubles, so the model agrees with the program for values up to \<open>2^53\<close>; statements
  that depend on the numeric value carry that bound.
\<close>

definition digit_val :: "char \<Rightarrow> nat" where
  "digit_val c = length (takeWhile (\<lambda>d. d \<noteq> c) ''0123456789'')"

definition Number :: "string \<Rightarrow> nat" where
  "Number ds = foldl (\<lambda>acc c. 10 * acc + digit_val c) 0 ds"

definition digit_char :: "nat \<Rightarrow> char" where
  "digit_char n = ''0123456789'' ! n"

text \<open>\<open>ToString\<close> of a non-negative integer: its decimal digits, no leading zero.\<close>

fun show_nat :: "nat \<Rightarrow> string" where
  "show_nat n = (if n < 10 then [digit_char n] else show_nat (n div 10) @ [digit_char (n mod 10)])"

declare show_nat.simps [simp del]

subsection \<open>\<open>pattern.exec(key)\<close>\<close>

text \<open>
  \<open>match_here s\<close> tries the pattern at the first position of \<open>s\<close> and returns the two
  capture groups. \<open>\w*\<close> and \<open>\d+\<close> are greedy; giving back characters never helps,
  because the character that would then have to be \<open>[\<close> (or \<open>]\<close>) is a word
  character (or a digit). So the greedy choice is the only candidate.
\<close>

definition match_here :: "string \<Rightarrow> (string \<times> string) option" where
  "match_here s =
     (let w = takeWhile is_word s; r = dropWhile is_word s in
      case r of
        [] \<Rightarrow> None
      | c # r' \<Rightarrow>
          if c \<noteq> CHR ''['' then None
          else
            let d = takeWhile is_digit r'; r'' = dropWhile is_digit r' in
            if d = [] then None
            else (case r'' of [] \<Rightarrow> None
                  | c' # _ \<Rightarrow> if c' = CHR '']'' then Some (w, d) else None))"

text \<open>
  The pattern has no anchors: \<open>exec\<close> returns the match at the leftmost position
  where one exists, and \<open>null\<close> when there is none.
\<close>

fun exec_pattern :: "string \<Rightarrow> (string \<times> string) option" where
  "exec_pattern [] = None"
| "exec_pattern (c # cs) =
     (case match_here (c # cs) of
        Some m \<Rightarrow> Some m
      | None \<Rightarrow> exec_pattern cs)"

subsection \<open>\<open>name.split(".")\<close>\<close>

fun split_dot :: "string \<Rightarrow> string list" where
  "split_dot [] = [[]]"
| "split_dot (c # cs) =
     (if c = CHR ''.'' then [] # split_dot cs
      else (case split_dot cs of
              [] \<Rightarrow> [[c]]
            | t # ts \<Rightarrow> (c # t) # ts))"

subsection \<open>\<open>getPaths\<close>\<close>

text \<open>
  The callback of \<open>flatMap\<close>: a token without a match is returned as it is; a match
  with an empty first group gives the number alone; otherwise the pair of the first
  group and the number, which \<open>flatMap\<close> flattens.
\<close>

definition parse_token :: "string \<Rightarrow> seg list" where
  "parse_token key =
     (case exec_pattern key of
        None \<Rightarrow> [Field key]
      | Some (m1, m2) \<Rightarrow>
          if m1 = [] then [Index (Number m2)]
          else [Field m1, Index (Number m2)])"

definition getPaths :: "string \<Rightarrow> seg list" where
  "getPaths name = (if name = [] then [] else concat (map parse_token (split_dot name)))"

subsection \<open>\<open>formatPaths\<close>\<close>




section \<open>Values, property reads and writes\<close>

text \<open>
  The values the record builder handles: what \<open>JSON.parse\<close> returns, the
  \<open>File\<close> handles of a form (name and size are the two fields the code looks at),
  and the function objects an object inherits from \<open>Object.prototype\<close>, which a
  property read can return. Array holes read as \<open>undefined\<close> and are modelled
  by it. Objects are finite maps from property keys to values.
\<close>

datatype jsnum = NaN | Finite rat | PosInfinity | NegInfinity

datatype jsval =
    Undefined
  | Null
  | Bool bool
  | Num jsnum
  | Str string
  | Arr "jsval list"
  | Obj "(string, jsval) fmap"
  | File string nat
  | Builtin string

text \<open>
  \<open>TypeError\<close> is the exception of a strict-mode write to a primitive (the module
  is an ES module, hence strict). \<open>ZodError\<close> is what the schema throws,
  \<open>BodyError\<close> a rejected \<open>request.formData()\<close>, \<open>UrlError\<close> a rejected
  \<open>new URL(text)\<close>. \<open>Unmodelled\<close> marks an execution that leaves the values
  above: it writes to a built-in function or prototype, to a \<open>File\<close>, or to a
  named (non-index) property of an array, or it uses a bracket index so large
  that \<open>Number\<close> is no longer exact. No statement below concludes anything about
  the program from an \<open>Unmodelled\<close> outcome.
\<close>

datatype error = TypeError | ZodError | BodyError | UrlError | Unmodelled

type_synonym 'a result = "error + 'a"

subsection \<open>Truthiness, \<open>??\<close>, \<open>Array.isArray\<close>, \<open>concat\<close>\<close>

fun truthy :: "jsval \<Rightarrow> bool" where
  "truthy Undefined = False"
| "truthy Null = False"
| "truthy (Bool b) = b"
| "truthy (Num n) = (n \<noteq> NaN \<and> n \<noteq> Finite 0)"
| "truthy (Str s) = (s \<noteq> [])"
| "truthy (Arr xs) = True"
| "truthy (Obj m) = True"
| "truthy (File name sz) = True"
| "truthy (Builtin name) = True"

definition nullish :: "jsval \<Rightarrow> bool" where
  "nullish v = (v = Undefined \<or> v = Null)"

definition coalesce :: "jsval \<Rightarrow> jsval \<Rightarrow> jsval" where
  "coalesce v d = (if nullish v then d else v)"

fun isArray :: "jsval \<Rightarrow> bool" where
  "isArray (Arr xs) = True"
| "isArray v = False"

text \<open>
  \<open>prev.concat(next)\<close> for an array \<open>prev\<close>: a new array with the elements of
  \<open>prev\<close>, followed by the elements of \<open>next\<close> when \<open>next\<close> is an array (arrays are
  concat-spreadable), by \<open>next\<close> itself otherwise.
\<close>

fun concat_js :: "jsval list \<Rightarrow> jsval \<Rightarrow> jsval" where
  "concat_js xs (Arr ys) = Arr (xs @ ys)"
| "concat_js xs v = Arr (xs @ [v])"

subsection \<open>Property keys\<close>

text \<open>
  A property key is a string; a number used as a key is converted by \<open>ToString\<close>.
  On an array, a key that is the canonical decimal form of an integer below
  \<open>2^32 - 1\<close> is an array index and addresses an element.
\<close>

fun prop_key :: "seg \<Rightarrow> string" where
  "prop_key (Field s) = s"
| "prop_key (Index n) = show_nat n"

definition canonical_digits :: "string \<Rightarrow> bool" where
  "canonical_digits d =
     (d \<noteq> [] \<and> list_all is_digit d \<and> (hd d = CHR ''0'' \<longrightarrow> length d = 1))"

fun arr_index :: "seg \<Rightarrow> nat option" where
  "arr_index (Index n) = (if n < 2 ^ 32 - 1 then Some n else None)"
| "arr_index (Field s) =
     (if canonical_digits s \<and> Number s < 2 ^ 32 - 1 then Some (Number s) else None)"

text \<open>
  \<open>Number(digits)\<close> is exact up to \<open>2^53\<close>. A larger index used as the key of an
  object is outside the model.
\<close>

fun exact_key :: "seg \<Rightarrow> bool" where
  "exact_key (Field s) = True"
| "exact_key (Index n) = (n \<le> 2 ^ 53)"

text \<open>The data properties every plain object inherits from \<open>Object.prototype\<close>.\<close>

definition object_prototype_names :: "string list" where
  "object_prototype_names =
     [''constructor'', ''hasOwnProperty'', ''isPrototypeOf'', ''propertyIsEnumerable'',
      ''toLocaleString'', ''toString'', ''valueOf'',
      ''__defineGetter__'', ''__defineSetter__'', ''__lookupGetter__'', ''__lookupSetter__'']"

subsection \<open>\<open>pointer[key]\<close>\<close>

text \<open>
  Reading from an object: the own property if there is one, otherwise what
  \<open>Object.prototype\<close> provides (a built-in function; for \<open>__proto__\<close> the
  prototype object itself), otherwise \<open>undefined\<close>. Reading from an array: the
  element, \<open>undefined\<close> beyond the end.
\<close>

fun get_prop :: "jsval \<Rightarrow> seg \<Rightarrow> jsval result" where
  "get_prop (Obj m) key =
     (if \<not> exact_key key then Inl Unmodelled
      else
        case fmlookup m (prop_key key) of
          Some v \<Rightarrow> Inr v
        | None \<Rightarrow>
            if prop_key key = ''__proto__'' \<or> prop_key key \<in> set object_prototype_names
            then Inr (Builtin (prop_key key))
            else Inr Undefined)"
| "get_prop (Arr xs) key =
     (case arr_index key of
        Some i \<Rightarrow> Inr (if i < length xs then xs ! i else Undefined)
      | None \<Rightarrow> Inl Unmodelled)"
| "get_prop Undefined key = Inl TypeError"
| "get_prop Null key = Inl TypeError"
| "get_prop v key = Inl Unmodelled"

subsection \<open>\<open>pointer[key] = newValue\<close>\<close>

definition list_put :: "jsval list \<Rightarrow> nat \<Rightarrow> jsval \<Rightarrow> jsval list" where
  "list_put xs i v =
     (if i < length xs then xs[i := v]
      else xs @ replicate (i - length xs) Undefined @ [v])"

text \<open>
  Writing to an object creates or replaces the own property; only \<open>__proto__\<close>, when
  it is not an own property, goes to the inherited setter. Writing an array index
  replaces the element or extends the array. Writing to a string, number or boolean
  throws in strict mode (again \<open>__proto__\<close> reaches the setter instead).
\<close>

fun set_prop :: "jsval \<Rightarrow> seg \<Rightarrow> jsval \<Rightarrow> jsval result" where
  "set_prop (Obj m) key v =
     (if \<not> exact_key key then Inl Unmodelled
      else if fmlookup m (prop_key key) = None \<and> prop_key key = ''__proto__''
      then Inl Unmodelled
      else Inr (Obj (fmupd (prop_key key) v m)))"
| "set_prop (Arr xs) key v =
     (case arr_index key of
        Some i \<Rightarrow> Inr (Arr (list_put xs i v))
      | None \<Rightarrow> Inl Unmodelled)"
| "set_prop Undefined key v = Inl TypeError"
| "set_prop Null key v = Inl TypeError"
| "set_prop (File name sz) key v = Inl Unmodelled"
| "set_prop (Builtin name) key v = Inl Unmodelled"
| "set_prop p key v = (if prop_key key = ''__proto__'' then Inl Unmodelled else Inl TypeError)"

fun is_primitive :: "jsval \<Rightarrow> bool" where
  "is_primitive (Bool b) = True"
| "is_primitive (Num n) = True"
| "is_primitive (Str s) = True"
| "is_primitive v = False"

section \<open>The record builder\<close>

subsection \<open>\<open>setValue\<close>\<close>

text \<open>
  The container \<open>setValue\<close> creates for a missing intermediate slot:
  \<open>typeof next === "number" ? [] : {}\<close>.
\<close>

fun fresh :: "seg \<Rightarrow> jsval" where
  "fresh (Index n) = Arr []"
| "fresh (Field s) = Obj fmempty"

text \<open>
  The value written at \<open>key\<close>, from the segments after \<open>key\<close> and the value read:
  \<open>index != lastIndex ? pointer[key] ?? (typeof next === "number" ? [] : {})
  : valueFn(pointer[key])\<close>.
\<close>

definition newValue :: "seg list \<Rightarrow> (jsval \<Rightarrow> jsval) \<Rightarrow> jsval \<Rightarrow> jsval" where
  "newValue rest valueFn prev =
     (case rest of
        [] \<Rightarrow> valueFn prev
      | next # _ \<Rightarrow> coalesce prev (fresh next))"

text \<open>
  The loop of \<open>setValue\<close>, from the current \<open>pointer\<close> and the remaining segments.
  The program mutates the object \<open>pointer\<close> refers to and then moves \<open>pointer\<close> to
  \<open>pointer[key]\<close>; the model returns the updated value of \<open>pointer\<close>, writing the
  updated child back into it. For a primitive \<open>pointer\<close> the read has no effect and
  the write throws, whatever \<open>newValue\<close> is.
\<close>

fun setValue_loop :: "jsval \<Rightarrow> seg list \<Rightarrow> (jsval \<Rightarrow> jsval) \<Rightarrow> jsval result" where
  "setValue_loop pointer [] valueFn = Inr pointer"
| "setValue_loop pointer (key # rest) valueFn =
     (if nullish pointer then Inr pointer
      else if is_primitive pointer then set_prop pointer key Undefined
      else
        case get_prop pointer key of
          Inl e \<Rightarrow> Inl e
        | Inr prev \<Rightarrow>
            (case set_prop pointer key (newValue rest valueFn prev) of
               Inl e \<Rightarrow> Inl e
             | Inr pointer' \<Rightarrow>
                 (case get_prop pointer' key of
                    Inl e \<Rightarrow> Inl e
                  | Inr child \<Rightarrow>
                      (case setValue_loop child rest valueFn of
                         Inl e \<Rightarrow> Inl e
                       | Inr child' \<Rightarrow> set_prop pointer' key child'))))"

definition setValue :: "jsval \<Rightarrow> string \<Rightarrow> (jsval \<Rightarrow> jsval) \<Rightarrow> jsval result" where
  "setValue target name valueFn = setValue_loop target (getPaths name) valueFn"

subsection \<open>\<open>toRecord\<close>\<close>

text \<open>
  \<open>JSON.parse\<close> belongs to the host, not to the program: it is the parameter \<open>jp\<close>,
  with \<open>jp s = None\<close> when \<open>JSON.parse(s)\<close> throws. What a statement needs to know
  about \<open>JSON.parse\<close> on a particular text is a hypothesis of that statement.
\<close>

type_synonym json_parse = "string \<Rightarrow> jsval option"

definition safeParseJSON :: "json_parse \<Rightarrow> string \<Rightarrow> jsval" where
  "safeParseJSON jp s = (case jp s of Some v \<Rightarrow> v | None \<Rightarrow> Str s)"

text \<open>A \<open>FormDataEntryValue\<close>: a string, or a \<open>File\<close> with its name and size.\<close>

datatype entry_value = EString string | EFile string nat

text \<open>The first two statements of the loop body of \<open>toRecord\<close>: the value of \<open>next\<close>.\<close>

definition coerce :: "json_parse \<Rightarrow> entry_value \<Rightarrow> jsval" where
  "coerce jp v =
     (case v of
        EString s \<Rightarrow> if s = [] then Undefined else safeParseJSON jp s
      | EFile name sz \<Rightarrow> if name = [] \<and> sz = 0 then Undefined else File name sz)"

text \<open>
  The callback passed to \<open>setValue\<close>, with the captured \<open>next\<close> as first argument
  and the previous occupant of the slot as second.
\<close>

definition merge :: "jsval \<Rightarrow> jsval \<Rightarrow> jsval" where
  "merge next prev =
     (if \<not> truthy prev then next
      else if \<not> truthy next then prev
      else if isArray prev then (case prev of Arr xs \<Rightarrow> concat_js xs next | _ \<Rightarrow> prev)
      else Arr [prev, next])"

text \<open>
  The loop over \<open>payload.entries()\<close>. The program mutates \<open>record\<close> and returns it;
  the model passes the record along. The default \<open>{}\<close> of the parameter \<open>record\<close>
  is \<open>Obj fmempty\<close>, given explicitly where it is meant. An exception thrown by
  \<open>setValue\<close> ends the loop.
\<close>

fun toRecord :: "json_parse \<Rightarrow> (string \<times> entry_value) list \<Rightarrow> jsval \<Rightarrow> jsval result" where
  "toRecord jp [] record = Inr record"
| "toRecord jp ((key, v) # payload) record =
     (case setValue record key (merge (coerce jp v)) of
        Inl e \<Rightarrow> Inl e
      | Inr record' \<Rightarrow> toRecord jp payload record')"


section \<open>The entry source adapters\<close>

text \<open>
  A \<open>Request\<close> as the adapters see it: the value of its \<open>Content-Type\<close> header
  (\<open>null\<close> when absent), the entries of \<open>new URL(request.url).searchParams\<close>, and
  what \<open>await request.formData()\<close> gives (the entries of the form, or a rejection).
\<close>

record request =
  content_type :: "string option"
  search_params :: "(string \<times> string) list"
  form_data :: "(string \<times> entry_value) list result"

fun starts_with :: "string \<Rightarrow> string \<Rightarrow> bool" where
  "starts_with s [] = True"
| "starts_with [] (c # cs) = False"
| "starts_with (d # ds) (c # cs) = (d = c \<and> starts_with ds cs)"

text \<open>\<open>s.includes(sub)\<close>\<close>

fun includes_str :: "string \<Rightarrow> string \<Rightarrow> bool" where
  "includes_str [] sub = (sub = [])"
| "includes_str (c # cs) sub = (starts_with (c # cs) sub \<or> includes_str cs sub)"

definition containsFormData :: "request \<Rightarrow> bool" where
  "containsFormData req =
     (case content_type req of
        None \<Rightarrow> False
      | Some contentType \<Rightarrow> contentType \<noteq> [] \<and> includes_str contentType ''multipart/form-data'')"

text \<open>
  The schema is the validator of the caller: it returns its output or throws. The
  chain \<open>z.instanceof(C).transform(toRecord).pipe(schema).parse(value)\<close> calls
  \<open>toRecord(value, ctx)\<close> and gives the result to the schema. The second argument is
  the one zod gives every transform, so the parameter \<open>record\<close> of \<open>toRecord\<close> is
  bound to it; the embedding takes that initial record as the parameter \<open>record0\<close>.
\<close>

type_synonym 'a schema = "jsval \<Rightarrow> 'a result"

definition transform_pipe ::
  "json_parse \<Rightarrow> jsval \<Rightarrow> 'a schema \<Rightarrow> (string \<times> entry_value) list \<Rightarrow> 'a result" where
  "transform_pipe jp record0 schema payload =
     (case toRecord jp payload record0 of
        Inl e \<Rightarrow> Inl e
      | Inr record \<Rightarrow> schema record)"

text \<open>The entries of a \<open>URLSearchParams\<close>: every value is a string.\<close>

definition query_entries :: "(string \<times> string) list \<Rightarrow> (string \<times> entry_value) list" where
  "query_entries ps = map (\<lambda>(k, v). (k, EString v)) ps"

datatype query_arg = QueryText string | QueryParams "(string \<times> string) list" | QueryRequest request

text \<open>
  \<open>new URL(text)\<close> is the host's: the parameter \<open>url\<close> gives the search parameters
  of a URL text, \<open>None\<close> when the text is not a URL.
\<close>

definition parseQueryAsync ::
  "json_parse \<Rightarrow> (string \<Rightarrow> (string \<times> string) list option) \<Rightarrow> jsval \<Rightarrow> 'a schema \<Rightarrow> query_arg \<Rightarrow> 'a result" where
  "parseQueryAsync jp url record0 schema v =
     (case v of
        QueryText text \<Rightarrow>
          (case url text of
             None \<Rightarrow> Inl UrlError
           | Some ps \<Rightarrow> transform_pipe jp record0 schema (query_entries ps))
      | QueryRequest req \<Rightarrow> transform_pipe jp record0 schema (query_entries (search_params req))
      | QueryParams ps \<Rightarrow> transform_pipe jp record0 schema (query_entries ps))"

datatype form_arg = FormEntries "(string \<times> entry_value) list" | FormRequest request

definition parseFormDataAsync ::
  "json_parse \<Rightarrow> jsval \<Rightarrow> 'a schema \<Rightarrow> form_arg \<Rightarrow> 'a result" where
  "parseFormDataAsync jp record0 schema v =
     (case v of
        FormRequest req \<Rightarrow>
          (case form_data req of
             Inl e \<Rightarrow> Inl e
           | Inr formData \<Rightarrow> transform_pipe jp record0 schema formData)
      | FormEntries formData \<Rightarrow> transform_pipe jp record0 schema formData)"

definition parseRequestAsync ::
  "json_parse \<Rightarrow> (string \<Rightarrow> (string \<times> string) list option) \<Rightarrow> jsval \<Rightarrow> 'a schema \<Rightarrow> request \<Rightarrow> 'a result" where
  "parseRequestAsync jp url record0 schema req =
     (if \<not> containsFormData req then parseQueryAsync jp url record0 schema (QueryRequest req)
      else
        case form_data req of
          Inl e \<Rightarrow> Inl e
        | Inr formData \<Rightarrow>
            parseFormDataAsync jp record0 schema
              (FormEntries (formData @ query_entries (search_params req))))"

section \<open>The transform helper \<open>zt.json\<close>\<close>

text \<open>
  The argument has type \<open>string | null | undefined\<close>. The refinement context is the
  list of issues added so far; \<open>ctx.addIssue\<close> appends one. The result is the
  argument itself, the output of the schema, or \<open>z.NEVER\<close>.
\<close>

datatype json_arg = ArgNull | ArgUndefined | ArgString string

datatype 'a json_result = Unchanged json_arg | Parsed 'a | NEVER

record issue =
  code :: string
  message :: string

definition json_issue :: issue where
  "json_issue = \<lparr>code = ''custom'', message = ''Must be a valid JSON string.''\<rparr>"

definition zt_json ::
  "json_parse \<Rightarrow> 'a schema \<Rightarrow> json_arg \<Rightarrow> issue list \<Rightarrow> 'a json_result \<times> issue list" where
  "zt_json jp schema v ctx =
     (case v of
        ArgString text \<Rightarrow>
          (case jp text of
             None \<Rightarrow> (NEVER, ctx @ [json_issue])
           | Some parsed \<Rightarrow>
               (case schema parsed of
                  Inl e \<Rightarrow> (NEVER, ctx @ [json_issue])
                | Inr out \<Rightarrow> (Parsed out, ctx)))
      | _ \<Rightarrow> (Unchanged v, ctx))"

section \<open>Notions of the specification\<close>

subsection \<open>The merge rules as the specification words them\<close>

text \<open>
  The four rules of the merge policy, with \<open>absent\<close> read as the absent marker
  \<open>undefined\<close>: previous absent gives next; next absent gives previous; a previous
  sequence gets next appended; otherwise the pair of previous and next.
\<close>

definition spec_merge :: "jsval \<Rightarrow> jsval \<Rightarrow> jsval" where
  "spec_merge prev next =
     (if prev = Undefined then next
      else if next = Undefined then prev
      else case prev of
             Arr xs \<Rightarrow> Arr (xs @ [next])
           | _ \<Rightarrow> Arr [prev, next])"

subsection \<open>The path grammar\<close>

text \<open>
  \<open>indexed_token t\<close> decomposes a token that is, as a whole, an optional field name
  (word characters) followed by one bracketed run of digits.
\<close>

definition indexed_token :: "string \<Rightarrow> (string \<times> string) option" where
  "indexed_token t =
     (case match_here t of
        None \<Rightarrow> None
      | Some (w, d) \<Rightarrow> if t = w @ ''['' @ d @ '']'' then Some (w, d) else None)"






subsection \<open>Tokens and bracket groups\<close>

text \<open>The bare-field pattern of the specification: a token with no brackets.\<close>

definition bare_field :: "string \<Rightarrow> bool" where
  "bare_field t = (CHR ''['' \<notin> set t \<and> CHR '']'' \<notin> set t)"

text \<open>\<open>has_group t\<close>: somewhere in \<open>t\<close> there is a \<open>[\<close>, one or more digits, and a \<open>]\<close>.\<close>

definition group_here :: "string \<Rightarrow> bool" where
  "group_here s =
     (case s of
        [] \<Rightarrow> False
      | c # r \<Rightarrow>
          c = CHR ''['' \<and> takeWhile is_digit r \<noteq> [] \<and>
          (case dropWhile is_digit r of [] \<Rightarrow> False | c' # _ \<Rightarrow> c' = CHR '']''))"

fun has_group :: "string \<Rightarrow> bool" where
  "has_group [] = False"
| "has_group (c # cs) = (group_here (c # cs) \<or> has_group cs)"

subsection \<open>Reading a record along a path, and paths that stay among own properties\<close>






subsection \<open>A sample of \<open>JSON.parse\<close>\<close>

text \<open>
  What \<open>JSON.parse\<close> returns on the literals \<open>true\<close>, \<open>false\<close>, \<open>null\<close> and \<open>0\<close>;
  every other text is taken to make it throw. The sample stands for \<open>JSON.parse\<close>
  in the closed examples below, which apply it to these four literals and to
  words such as \<open>a\<close>, \<open>x\<close> or \<open>john\<close> that are not JSON; on other texts it
  is not meant to agree with \<open>JSON.parse\<close>.
\<close>

definition json_sample :: json_parse where
  "json_sample s =
     (if s = ''true'' then Some (Bool True)
      else if s = ''false'' then Some (Bool False)
      else if s = ''null'' then Some Null
      else if s = ''0'' then Some (Num (Finite 0))
      else None)"


subsection \<open>Sample schemas\<close>

text \<open>A schema that accepts everything, and one that accepts booleans only.\<close>

definition any_schema :: "jsval schema" where
  "any_schema v = Inr v"

definition boolean_schema :: "bool schema" where
  "boolean_schema v = (case v of Bool b \<Rightarrow> Inr b | _ \<Rightarrow> Inl ZodError)"

section \<open>Evaluation\<close>

lemmas eval_defs =
  getPaths_def parse_token_def match_here_def is_word_def is_digit_def Number_def
  digit_val_def setValue_def coerce_def safeParseJSON_def merge_def json_sample_def nullish_def
  coalesce_def newValue_def list_put_def object_prototype_names_def show_nat.simps digit_char_def
  canonical_digits_def

section \<open>Coercion of entry values\<close>

lemma toRecord_append:
  "toRecord jp (xs @ ys) r =
     (case toRecord jp xs r of Inl e \<Rightarrow> Inl e | Inr r' \<Rightarrow> toRecord jp ys r')"
proof (induction xs arbitrary: r)
  case Nil
  show ?case by simp
next
  case (Cons x xs)
  obtain key v where x: "x = (key, v)" by (cases x)
  show ?case
    by (cases "setValue r key (merge (coerce jp v))") (simp_all add: x Cons.IH)
qed

text \<open>
  Claim C7. \<open>toRecord\<close> gives \<open>setValue\<close> the coerced value of the entry: the empty
  string and a file with empty name and size zero become \<open>undefined\<close>; any other
  string becomes what \<open>JSON.parse\<close> returns, or stays the string when
  \<open>JSON.parse\<close> throws; any other file is kept as it is, whatever \<open>JSON.parse\<close>
  would do.
\<close>

theorem coerce_entry_value:
  "toRecord jp [(key, v)] record = setValue record key (merge (coerce jp v))
   \<and> coerce jp (EString []) = Undefined
   \<and> coerce jp (EFile [] 0) = Undefined
   \<and> (s \<noteq> [] \<longrightarrow> coerce jp (EString s) = (case jp s of Some parsed \<Rightarrow> parsed | None \<Rightarrow> Str s))
   \<and> (name \<noteq> [] \<or> sz \<noteq> 0 \<longrightarrow> coerce jp (EFile name sz) = File name sz)"
proof -
  have "toRecord jp [(key, v)] record = setValue record key (merge (coerce jp v))"
    by (cases "setValue record key (merge (coerce jp v))") simp_all
  then show ?thesis
    by (auto simp: coerce_def safeParseJSON_def)
qed

theorem coerce_entry_value_witness:
  "coerce json_sample (EString ''false'') = Bool False
   \<and> coerce json_sample (EString ''x'') = Str ''x''
   \<and> coerce json_sample (EFile ''photo.png'' 0) = File ''photo.png'' 0
   \<and> coerce json_sample (EFile [] 7) = File [] 7"
  using coerce_entry_value [of json_sample "''k''" "EString []" "Obj fmempty" "''false''" "''photo.png''" 0]
    coerce_entry_value [of json_sample "''k''" "EString []" "Obj fmempty" "''x''" "[]" 7]
  by (simp add: json_sample_def)

section \<open>The merge callback\<close>

text \<open>
  Claim C1, amended. The callback tests truthiness, not absence: a falsy previous
  value (\<open>undefined\<close>, \<open>null\<close>, \<open>false\<close>, \<open>0\<close>, \<open>NaN\<close>, the empty string) gives
  next; otherwise a falsy next gives previous; otherwise a previous array, with a
  next that is not itself an array, gets next appended; otherwise previous is not
  an array and the result is the pair of previous and next. On values that are
  \<open>undefined\<close> or truthy (and, for a previous array, a next that is not an array)
  this is the merge of the specification.
\<close>

theorem merge_rules:
  "(\<not> truthy prev \<longrightarrow> merge next prev = next)
   \<and> (truthy prev \<and> \<not> truthy next \<longrightarrow> merge next prev = prev)
   \<and> (truthy next \<and> \<not> isArray next \<longrightarrow> merge next (Arr xs) = Arr (xs @ [next]))
   \<and> (truthy prev \<and> truthy next \<and> \<not> isArray prev \<longrightarrow> merge next prev = Arr [prev, next])
   \<and> ((prev = Undefined \<or> truthy prev) \<and> (next = Undefined \<or> truthy next)
        \<and> (isArray prev \<longrightarrow> \<not> isArray next)
        \<longrightarrow> merge next prev = spec_merge prev next)"
proof -
  have app: "\<not> isArray next \<Longrightarrow> concat_js ys next = Arr (ys @ [next])" for ys
    by (cases "next") simp_all
  have 1: "\<not> truthy prev \<longrightarrow> merge next prev = next"
    by (simp add: merge_def)
  have 2: "truthy prev \<and> \<not> truthy next \<longrightarrow> merge next prev = prev"
    by (simp add: merge_def)
  have 3: "truthy next \<and> \<not> isArray next \<longrightarrow> merge next (Arr xs) = Arr (xs @ [next])"
    by (simp add: merge_def app)
  have 4: "truthy prev \<and> truthy next \<and> \<not> isArray prev \<longrightarrow> merge next prev = Arr [prev, next]"
    by (simp add: merge_def)
  have 5: "(prev = Undefined \<or> truthy prev) \<and> (next = Undefined \<or> truthy next)
        \<and> (isArray prev \<longrightarrow> \<not> isArray next)
        \<longrightarrow> merge next prev = spec_merge prev next"
    by (cases prev) (auto simp: merge_def spec_merge_def app)
  from 1 2 3 4 5 show ?thesis by blast
qed

theorem merge_rules_witness:
  "merge (Str ''b'') (Bool False) = Str ''b''
   \<and> merge (Num (Finite 0)) (Str ''a'') = Str ''a''
   \<and> merge (Str ''c'') (Arr [Str ''a'', Str ''b'']) = Arr [Str ''a'', Str ''b'', Str ''c'']
   \<and> merge (Str ''b'') (Str ''a'') = Arr [Str ''a'', Str ''b'']
   \<and> merge (Str ''b'') (Str ''a'') = spec_merge (Str ''a'') (Str ''b'')"
  using merge_rules [of "Bool False" "Str ''b''" "[]"]
    merge_rules [of "Str ''a''" "Num (Finite 0)" "[]"]
    merge_rules [of "Str ''a''" "Str ''c''" "[Str ''a'', Str ''b'']"]
    merge_rules [of "Str ''a''" "Str ''b''" "[]"]
  by (simp add: spec_merge_def)

text \<open>
  Claim C1 as stated fails: with previous \<open>"a"\<close> and next \<open>false\<close>, a present
  value, the fourth rule asks for the pair, and the callback returns \<open>"a"\<close>.
\<close>

theorem merge_counterexample:
  "merge (Bool False) (Str ''a'') = Str ''a''
   \<and> spec_merge (Str ''a'') (Bool False) = Arr [Str ''a'', Bool False]
   \<and> merge (Bool False) (Str ''a'') \<noteq> spec_merge (Str ''a'') (Bool False)"
  by (simp add: merge_def spec_merge_def)

section \<open>The request adapter\<close>

text \<open>
  Claim C8. \<open>parseRequestAsync\<close> looks at the \<open>Content-Type\<close> header. Unless the
  header is present and includes \<open>multipart/form-data\<close>, the request goes to
  \<open>parseQueryAsync\<close> as it is. Otherwise the entries of the query are appended to
  the entries of the form, so the record is built from the form entries first
  and the query entries are merged into that record afterwards.
\<close>

theorem parseRequestAsync_cases:
  "(\<not> containsFormData req \<longrightarrow>
      parseRequestAsync jp url record0 schema req
        = parseQueryAsync jp url record0 schema (QueryRequest req))
   \<and> (\<forall>formData. containsFormData req \<longrightarrow> form_data req = Inr formData \<longrightarrow>
        parseRequestAsync jp url record0 schema req
          = parseFormDataAsync jp record0 schema
              (FormEntries (formData @ query_entries (search_params req)))
        \<and> parseRequestAsync jp url record0 schema req
          = (case toRecord jp formData record0 of
               Inl e \<Rightarrow> Inl e
             | Inr record1 \<Rightarrow>
                 (case toRecord jp (query_entries (search_params req)) record1 of
                    Inl e \<Rightarrow> Inl e
                  | Inr record2 \<Rightarrow> schema record2)))
   \<and> (containsFormData req \<longleftrightarrow>
        (\<exists>contentType. content_type req = Some contentType
           \<and> includes_str contentType ''multipart/form-data''))"
proof -
  have incl: "containsFormData req \<longleftrightarrow>
        (\<exists>contentType. content_type req = Some contentType
           \<and> includes_str contentType ''multipart/form-data'')"
    by (cases "content_type req") (auto simp: containsFormData_def)
  show ?thesis
    using incl
    by (auto simp: parseRequestAsync_def parseFormDataAsync_def transform_pipe_def
        toRecord_append split: sum.splits)
qed

theorem parseRequestAsync_cases_witness:
  "parseRequestAsync json_sample (\<lambda>t. None) (Obj fmempty) any_schema
     \<lparr>content_type = Some ''multipart/form-data; boundary=x'',
      search_params = [(''tag'', ''b'')],
      form_data = Inr [(''tag'', EString ''a'')]\<rparr>
   = Inr (Obj (fmupd ''tag'' (Arr [Str ''a'', Str ''b'']) fmempty))
   \<and> parseRequestAsync json_sample (\<lambda>t. None) (Obj fmempty) any_schema
     \<lparr>content_type = None,
      search_params = [(''tag'', ''b'')],
      form_data = Inr [(''tag'', EString ''a'')]\<rparr>
   = parseQueryAsync json_sample (\<lambda>t. None) (Obj fmempty) any_schema
       (QueryRequest \<lparr>content_type = None,
      search_params = [(''tag'', ''b'')],
      form_data = Inr [(''tag'', EString ''a'')]\<rparr>)"
  using parseRequestAsync_cases [of
      "\<lparr>content_type = Some ''multipart/form-data; boundary=x'',
      search_params = [(''tag'', ''b'')],
      form_data = Inr [(''tag'', EString ''a'')]\<rparr>" json_sample "\<lambda>t. None" "Obj fmempty" any_schema]
   parseRequestAsync_cases [of
      "\<lparr>content_type = None,
      search_params = [(''tag'', ''b'')],
      form_data = Inr [(''tag'', EString ''a'')]\<rparr>" json_sample "\<lambda>t. None" "Obj fmempty" any_schema]
  by (simp add: containsFormData_def query_entries_def any_schema_def parseFormDataAsync_def
      transform_pipe_def eval_defs)

section \<open>The helper \<open>zt.json\<close>\<close>

text \<open>
  Claim C9. The transform returns \<open>null\<close> and \<open>undefined\<close> unchanged and adds no
  issue. For a string it calls \<open>JSON.parse\<close> and then the schema; when either
  throws it adds the issue \<open>Must be a valid JSON string.\<close> and returns \<open>z.NEVER\<close>;
  otherwise it returns the output of the schema and adds no issue.
\<close>

theorem zt_json_cases:
  "zt_json jp schema ArgNull ctx = (Unchanged ArgNull, ctx)
   \<and> zt_json jp schema ArgUndefined ctx = (Unchanged ArgUndefined, ctx)
   \<and> (jp s = None \<longrightarrow> zt_json jp schema (ArgString s) ctx = (NEVER, ctx @ [json_issue]))
   \<and> (jp s = Some parsed \<longrightarrow> schema parsed = Inl e \<longrightarrow>
          zt_json jp schema (ArgString s) ctx = (NEVER, ctx @ [json_issue]))
   \<and> (jp s = Some parsed \<longrightarrow> schema parsed = Inr out \<longrightarrow>
          zt_json jp schema (ArgString s) ctx = (Parsed out, ctx))
   \<and> message json_issue = ''Must be a valid JSON string.''"
  by (simp add: zt_json_def json_issue_def)

theorem zt_json_cases_witness:
  "zt_json json_sample boolean_schema (ArgString ''a'') [] = (NEVER, [json_issue])
   \<and> zt_json json_sample boolean_schema (ArgString ''null'') [] = (NEVER, [json_issue])
   \<and> zt_json json_sample boolean_schema (ArgString ''false'') [] = (Parsed False, [])"
proof -
  have 1: "json_sample ''a'' = None" by (simp add: json_sample_def)
  have 2: "json_sample ''null'' = Some Null" by (simp add: json_sample_def)
  have 3: "json_sample ''false'' = Some (Bool False)" by (simp add: json_sample_def)
  have 4: "boolean_schema Null = Inl ZodError" by (simp add: boolean_schema_def)
  have 5: "boolean_schema (Bool False) = Inr False" by (simp add: boolean_schema_def)
  show ?thesis
    using zt_json_cases [where jp = json_sample and schema = boolean_schema and ctx = "[]"
          and s = "''a''" and parsed = Null and e = ZodError and out = False]
      zt_json_cases [where jp = json_sample and schema = boolean_schema and ctx = "[]"
          and s = "''null''" and parsed = Null and e = ZodError and out = False]
      zt_json_cases [where jp = json_sample and schema = boolean_schema and ctx = "[]"
          and s = "''false''" and parsed = "Bool False" and e = ZodError and out = False]
      1 2 3 4 5
    by simp
qed


section \<open>From a path string to segments and back\<close>

subsection \<open>Digits\<close>







subsection \<open>Splitting at dots and joining again\<close>



subsection \<open>Tokens that are given back\<close>



lemma exec_pattern_here: "match_here t = Some m \<Longrightarrow> exec_pattern t = Some m"
  by (cases t) (simp_all add: match_here_def)










section \<open>Tokens and the pattern\<close>

lemma not_word_bracket: "\<not> is_word CHR ''[''"
  by (simp add: is_word_def)

lemma not_digit_bracket: "\<not> is_digit CHR '']''"
  by (simp add: is_digit_def)

lemma has_group_suffix: "has_group ys \<Longrightarrow> has_group (xs @ ys)"
  by (induction xs) simp_all

lemma group_here_has_group: "group_here s \<Longrightarrow> has_group s"
  by (cases s) (simp_all add: group_here_def)

lemma match_here_SomeD:
  assumes "match_here s = Some (w, d)"
  shows "\<exists>r. s = w @ CHR ''['' # d @ CHR '']'' # r" and "d \<noteq> []"
proof -
  obtain c r' where dw: "dropWhile is_word s = c # r'"
    using assms by (cases "dropWhile is_word s") (simp_all add: match_here_def)
  have c: "c = CHR ''[''"
    using assms dw by (simp add: match_here_def split: if_splits)
  have d: "takeWhile is_digit r' \<noteq> []"
    using assms dw c by (simp add: match_here_def Let_def split: if_splits)
  obtain c' r'' where dd: "dropWhile is_digit r' = c' # r''"
    using assms dw c d by (cases "dropWhile is_digit r'") (simp_all add: match_here_def Let_def)
  have c': "c' = CHR '']''" and wd: "w = takeWhile is_word s" "d = takeWhile is_digit r'"
    using assms dw c d dd by (simp_all add: match_here_def Let_def split: if_splits)
  have "s = takeWhile is_word s @ dropWhile is_word s" by simp
  also have "\<dots> = w @ CHR ''['' # r'" using dw c wd by simp
  also have "r' = takeWhile is_digit r' @ dropWhile is_digit r'" by simp
  also have "\<dots> = d @ CHR '']'' # r''" using dd c' wd by simp
  finally show "\<exists>r. s = w @ CHR ''['' # d @ CHR '']'' # r" by blast
  show "d \<noteq> []" using d wd by simp
qed

lemma group_here_intro:
  assumes "d \<noteq> []" and "list_all is_digit d"
  shows "group_here (CHR ''['' # d @ CHR '']'' # r)"
proof -
  have td: "takeWhile is_digit (d @ CHR '']'' # r) = d"
    using assms(2) by (simp add: takeWhile_append2 list_all_iff not_digit_bracket)
  have dd: "dropWhile is_digit (d @ CHR '']'' # r) = CHR '']'' # r"
    using assms(2) by (simp add: dropWhile_append2 list_all_iff not_digit_bracket)
  show ?thesis using assms(1) by (simp add: group_here_def td dd)
qed

lemma match_here_digits:
  assumes "match_here s = Some (w, d)"
  shows "list_all is_digit d" and "list_all is_word w"
proof -
  have "d = takeWhile is_digit (tl (dropWhile is_word s))"
    using assms by (auto simp: match_here_def Let_def split: list.splits if_splits)
  then show "list_all is_digit d"
    by (simp add: list_all_iff) (meson set_takeWhileD)
  have "w = takeWhile is_word s"
    using assms by (auto simp: match_here_def Let_def split: list.splits if_splits)
  then show "list_all is_word w"
    by (simp add: list_all_iff) (meson set_takeWhileD)
qed

lemma match_here_has_group:
  assumes "match_here s = Some m"
  shows "has_group s"
proof -
  obtain w d where m: "m = (w, d)" by (cases m)
  from match_here_SomeD [of s w d] assms m obtain r
    where s: "s = w @ CHR ''['' # d @ CHR '']'' # r" and d: "d \<noteq> []" by blast
  from match_here_digits [of s w d] assms m have "list_all is_digit d" by simp
  with d have "group_here (CHR ''['' # d @ CHR '']'' # r)" by (intro group_here_intro)
  then have "has_group (w @ CHR ''['' # d @ CHR '']'' # r)"
    by (intro has_group_suffix group_here_has_group)
  with s show ?thesis by simp
qed

lemma group_hereD:
  assumes "group_here s"
  shows "\<exists>d r. s = CHR ''['' # d @ CHR '']'' # r \<and> d \<noteq> [] \<and> list_all is_digit d"
proof -
  obtain c cs where s: "s = c # cs"
    using assms by (cases s) (simp_all add: group_here_def)
  have c: "c = CHR ''[''" and d: "takeWhile is_digit cs \<noteq> []"
    using assms s by (simp_all add: group_here_def)
  obtain c' r where dd: "dropWhile is_digit cs = c' # r"
    using assms s by (cases "dropWhile is_digit cs") (simp_all add: group_here_def)
  have c': "c' = CHR '']''"
    using assms s dd by (simp add: group_here_def)
  have "cs = takeWhile is_digit cs @ dropWhile is_digit cs" by simp
  then have "s = CHR ''['' # takeWhile is_digit cs @ CHR '']'' # r"
    using s c dd c' by simp
  moreover have "list_all is_digit (takeWhile is_digit cs)"
    by (simp add: list_all_iff) (meson set_takeWhileD)
  ultimately show ?thesis using d by blast
qed

lemma match_here_indexed:
  assumes "list_all is_word w" and "d \<noteq> []" and "list_all is_digit d"
  shows "match_here (w @ CHR ''['' # d @ CHR '']'' # rest) = Some (w, d)"
proof -
  have tw: "takeWhile is_word (w @ CHR ''['' # d @ CHR '']'' # rest) = w"
    using assms(1) by (simp add: takeWhile_append2 list_all_iff not_word_bracket)
  have dw: "dropWhile is_word (w @ CHR ''['' # d @ CHR '']'' # rest) = CHR ''['' # d @ CHR '']'' # rest"
    using assms(1) by (simp add: dropWhile_append2 list_all_iff not_word_bracket)
  have td: "takeWhile is_digit (d @ CHR '']'' # rest) = d"
    using assms(3) by (simp add: takeWhile_append2 list_all_iff not_digit_bracket)
  have dd: "dropWhile is_digit (d @ CHR '']'' # rest) = CHR '']'' # rest"
    using assms(3) by (simp add: dropWhile_append2 list_all_iff not_digit_bracket)
  show ?thesis
    using assms(2) by (simp add: match_here_def tw dw td dd)
qed

lemma group_here_match_here:
  assumes "group_here s"
  shows "match_here s \<noteq> None"
proof -
  from group_hereD [OF assms] obtain d r
    where s: "s = CHR ''['' # d @ CHR '']'' # r" and d: "d \<noteq> []" "list_all is_digit d" by blast
  have "match_here ([] @ CHR ''['' # d @ CHR '']'' # r) = Some ([], d)"
    using d by (intro match_here_indexed) simp_all
  with s show ?thesis by simp
qed

lemma exec_pattern_None_iff: "exec_pattern t = None \<longleftrightarrow> \<not> has_group t"
proof (induction t)
  case Nil
  show ?case by simp
next
  case (Cons c cs)
  show ?case
  proof (cases "match_here (c # cs)")
    case None
    then have "\<not> group_here (c # cs)" using group_here_match_here by blast
    with None Cons show ?thesis by simp
  next
    case (Some m)
    then have "has_group (c # cs)" by (rule match_here_has_group)
    with Some show ?thesis by simp
  qed
qed

lemma has_group_iff:
  "has_group t \<longleftrightarrow>
     (\<exists>before d after. t = before @ CHR ''['' # d @ CHR '']'' # after \<and> d \<noteq> [] \<and> list_all is_digit d)"
proof
  assume "has_group t"
  then show "\<exists>before d after. t = before @ CHR ''['' # d @ CHR '']'' # after \<and> d \<noteq> [] \<and> list_all is_digit d"
  proof (induction t)
    case Nil
    then show ?case by simp
  next
    case (Cons c cs)
    show ?case
    proof (cases "group_here (c # cs)")
      case True
      from group_hereD [OF this] obtain d r
        where "c # cs = [] @ CHR ''['' # d @ CHR '']'' # r" "d \<noteq> []" "list_all is_digit d"
        by auto
      then show ?thesis by blast
    next
      case False
      with Cons.prems have "has_group cs" by simp
      from Cons.IH [OF this] obtain before d after
        where "cs = before @ CHR ''['' # d @ CHR '']'' # after" "d \<noteq> []" "list_all is_digit d" by blast
      then have "c # cs = (c # before) @ CHR ''['' # d @ CHR '']'' # after" by simp
      with \<open>d \<noteq> []\<close> \<open>list_all is_digit d\<close> show ?thesis by blast
    qed
  qed
next
  assume "\<exists>before d after. t = before @ CHR ''['' # d @ CHR '']'' # after \<and> d \<noteq> [] \<and> list_all is_digit d"
  then obtain before d after
    where t: "t = before @ CHR ''['' # d @ CHR '']'' # after" and d: "d \<noteq> []" "list_all is_digit d"
    by blast
  from d have "group_here (CHR ''['' # d @ CHR '']'' # after)" by (intro group_here_intro)
  then show "has_group t"
    unfolding t by (intro has_group_suffix group_here_has_group)
qed

lemma parse_token_first_group:
  assumes "list_all is_word w" and "d \<noteq> []" and "list_all is_digit d"
  shows "parse_token (w @ ''['' @ d @ '']'' @ rest)
           = (if w = [] then [Index (Number d)] else [Field w, Index (Number d)])"
proof -
  have "exec_pattern (w @ CHR ''['' # d @ CHR '']'' # rest) = Some (w, d)"
    by (intro exec_pattern_here match_here_indexed assms)
  then show ?thesis by (simp add: parse_token_def)
qed

lemma parse_token_literal_iff: "parse_token t = [Field t] \<longleftrightarrow> \<not> has_group t"
proof (cases "exec_pattern t")
  case None
  then show ?thesis using exec_pattern_None_iff [of t] by (simp add: parse_token_def)
next
  case (Some m)
  then have "has_group t" using exec_pattern_None_iff [of t] by simp
  with Some show ?thesis by (cases m) (simp add: parse_token_def)
qed

text \<open>
  Claim C4, amended. A token of the key in which no bracket group \<open>[digits]\<close>
  occurs anywhere is returned unchanged as one field name; a token in which one
  occurs is never returned as it is. A token that begins with a (possibly empty)
  run of word characters and a bracket group gives the segments of that group
  alone, whatever follows it in the token: a second bracket group is not read.
\<close>

theorem getPaths_token:
  assumes "name \<noteq> []" and "split_dot name = before @ t # after"
  shows "(\<not> has_group t \<longrightarrow>
            getPaths name
              = concat (map parse_token before) @ [Field t] @ concat (map parse_token after))
       \<and> (has_group t \<longrightarrow> parse_token t \<noteq> [Field t])
       \<and> (list_all is_word w \<and> d \<noteq> [] \<and> list_all is_digit d \<and> t = w @ ''['' @ d @ '']'' @ rest \<longrightarrow>
            getPaths name
              = concat (map parse_token before)
                @ (if w = [] then [Index (Number d)] else [Field w, Index (Number d)])
                @ concat (map parse_token after))"
proof -
  have g: "getPaths name = concat (map parse_token before) @ parse_token t @ concat (map parse_token after)"
    using assms by (simp add: getPaths_def)
  have 1: "\<not> has_group t \<longrightarrow> parse_token t = [Field t]"
    using parse_token_literal_iff by blast
  have 2: "has_group t \<longrightarrow> parse_token t \<noteq> [Field t]"
    using parse_token_literal_iff by blast
  have 3: "list_all is_word w \<and> d \<noteq> [] \<and> list_all is_digit d \<and> t = w @ ''['' @ d @ '']'' @ rest \<longrightarrow>
      parse_token t = (if w = [] then [Index (Number d)] else [Field w, Index (Number d)])"
    using parse_token_first_group by blast
  show ?thesis
  proof (intro conjI impI)
    assume "\<not> has_group t"
    with 1 g show "getPaths name
              = concat (map parse_token before) @ [Field t] @ concat (map parse_token after)"
      by simp
  next
    assume "has_group t"
    with 2 show "parse_token t \<noteq> [Field t]" by simp
  next
    assume "list_all is_word w \<and> d \<noteq> [] \<and> list_all is_digit d \<and> t = w @ ''['' @ d @ '']'' @ rest"
    with 3 have "parse_token t = (if w = [] then [Index (Number d)] else [Field w, Index (Number d)])"
      by blast
    with g show "getPaths name
              = concat (map parse_token before)
                @ (if w = [] then [Index (Number d)] else [Field w, Index (Number d)])
                @ concat (map parse_token after)"
      by simp
  qed
qed

theorem getPaths_token_witness:
  "getPaths ''user.first-name'' = [Field ''user'', Field ''first-name'']
   \<and> getPaths ''m.a[0][1]'' = [Field ''m'', Field ''a'', Index 0]"
proof -
  have n1: "''user.first-name'' \<noteq> []" and n2: "''m.a[0][1]'' \<noteq> []" by simp_all
  have s1: "split_dot ''user.first-name'' = [''user''] @ ''first-name'' # []" by simp
  have s2: "split_dot ''m.a[0][1]'' = [''m''] @ ''a[0][1]'' # []" by simp
  have g: "\<not> has_group ''first-name''" by (simp add: group_here_def)
  have p: "parse_token ''user'' = [Field ''user'']" "parse_token ''m'' = [Field ''m'']"
    by (simp_all add: eval_defs)
  have w: "list_all is_word ''a'' \<and> ''0'' \<noteq> [] \<and> list_all is_digit ''0''
      \<and> ''a[0][1]'' = ''a'' @ ''['' @ ''0'' @ '']'' @ ''[1]''"
    by (simp add: is_word_def is_digit_def)
  have num: "Number ''0'' = 0" by (simp add: Number_def digit_val_def)
  from getPaths_token [OF n1 s1, of "[]" "[]" "[]"] g
  have 1: "getPaths ''user.first-name''
      = concat (map parse_token [''user'']) @ [Field ''first-name''] @ concat (map parse_token [])"
    by blast
  from getPaths_token [OF n2 s2, of "''a''" "''0''" "''[1]''"] w
  have 2: "getPaths ''m.a[0][1]''
      = concat (map parse_token [''m''])
        @ (if ''a'' = [] then [Index (Number ''0'')] else [Field ''a'', Index (Number ''0'')])
        @ concat (map parse_token [])"
    by blast
  show ?thesis
    unfolding 1 2 by (simp add: p num)
qed

text \<open>
  Claim C4 as stated fails: the token \<open>a[0][1]\<close> has brackets, and is not as a whole
  a field name followed by one bracket group; it is not returned as a literal field
  name but parsed from its first group.
\<close>

theorem getPaths_token_counterexample:
  "\<not> bare_field ''a[0][1]'' \<and> indexed_token ''a[0][1]'' = None
   \<and> getPaths ''a[0][1]'' = [Field ''a'', Index 0]
   \<and> getPaths ''a[0][1]'' \<noteq> [Field ''a[0][1]'']"
  by (simp add: bare_field_def indexed_token_def eval_defs)


section \<open>Laws of property reads and writes\<close>

















section \<open>Repeated keys\<close>

subsection \<open>Writing along a path that is not there yet\<close>









subsection \<open>Entries that all carry the same key\<close>













section \<open>Entries at different paths\<close>

subsection \<open>Different keys of one container\<close>













subsection \<open>Swapping two adjacent entries\<close>








end
